theory Spec2Isabelle
  imports Main "HOL-Library.Word"
begin

section \<open>JavaScript values\<close>

text \<open>
  A JavaScript string is a sequence of UTF-16 code units. Source literals are ASCII
  unless said otherwise and are written through \<open>js\<close>; the em dash of the catalog
  labels is the code unit U+2014.
\<close>

type_synonym code_unit = "16 word"
type_synonym js_string = "code_unit list"

definition js :: "string \<Rightarrow> js_string" where
  "js s = map of_char s"

text \<open>
  \<^verbatim>\<open>String.prototype.trim\<close> strips the code units of the ECMAScript productions
  WhiteSpace (TAB, VT, FF, ZWNBSP and the Unicode space separators) and LineTerminator
  (LF, CR, LS, PS) from both ends. All of them lie in the basic multilingual plane, so
  the test on single code units is exact.
\<close>

definition isWhiteSpace :: "code_unit \<Rightarrow> bool" where
  "isWhiteSpace c \<longleftrightarrow>
     c \<in> set [0x0009, 0x000A, 0x000B, 0x000C, 0x000D, 0x0020, 0x00A0, 0x1680,
               0x2028, 0x2029, 0x202F, 0x205F, 0x3000, 0xFEFF]
     \<or> (0x2000 \<le> c \<and> c \<le> 0x200A)"

definition trim :: "js_string \<Rightarrow> js_string" where
  "trim s = rev (dropWhile isWhiteSpace (rev (dropWhile isWhiteSpace s)))"

text \<open>The argument of \<^verbatim>\<open>JSON.stringify\<close>: the value a request body is built from.\<close>

datatype json =
    JString js_string
  | JNumber nat
  | JArray "json list"
  | JObject "(string \<times> json) list"

text \<open>
  Every \<^verbatim>\<open>fetch\<close> of the repository is a POST with the header
  \<^verbatim>\<open>Content-Type: application/json\<close>.
\<close>

record request_init =
  http_method :: js_string
  headers :: "(string \<times> js_string) list"
  body :: json

definition post_json :: "json \<Rightarrow> request_init" where
  "post_json b =
     \<lparr>http_method = js ''POST'',
      headers = [(''Content-Type'', js ''application/json'')],
      body = b\<rparr>"

text \<open>
  What a handler does besides updating its component's state, in the order the source
  performs it. A \<^verbatim>\<open>fetch\<close> is recorded when it is issued: the source wraps each one
  in \<^verbatim>\<open>try { ... } catch (e) {}\<close> and attaches \<^verbatim>\<open>.catch(() => {})\<close>, so
  neither a synchronous failure nor a rejected promise changes the statements that follow.
  State setters take effect at the re-render that follows the event; a handler reads the
  state of the render it was created in.
\<close>

datatype effect =
    Fetch js_string request_init
  | ToastSuccess string
  | ToastError string
  | OnContextChange "js_string list"
  | OnSend
  | OnComplete
  | OnClose
  | PreventDefault

fun is_fetch :: "effect \<Rightarrow> bool" where
  "is_fetch (Fetch u r) = True"
| "is_fetch e = False"

fun is_onContextChange :: "effect \<Rightarrow> bool" where
  "is_onContextChange (OnContextChange ids) = True"
| "is_onContextChange e = False"

fun is_toast_error :: "effect \<Rightarrow> bool" where
  "is_toast_error (ToastError m) = True"
| "is_toast_error e = False"

text \<open>The field \<open>k\<close> of the JSON object a request carries, if it has one.\<close>

fun body_field :: "string \<Rightarrow> effect \<Rightarrow> json option" where
  "body_field k (Fetch u r) =
     (case body r of JObject kvs \<Rightarrow> map_of kvs k | _ \<Rightarrow> None)"
| "body_field k e = None"

section \<open>ChatBar: the composer and its context picker\<close>

record context_option =
  co_id :: js_string
  co_label :: js_string

definition em_dash :: code_unit where
  "em_dash = 0x2014"

definition CONTEXT_OPTIONS :: "context_option list" where
  "CONTEXT_OPTIONS =
    [\<lparr>co_id = js ''blackstone -- commentaries v1'',
      co_label = js ''Blackstone '' @ [em_dash] @ js '' Commentaries on the Laws of England, Vol. 1''\<rparr>,
     \<lparr>co_id = js ''blackstone -- commentaries v2'',
      co_label = js ''Blackstone '' @ [em_dash] @ js '' Commentaries on the Laws of England, Vol. 2''\<rparr>,
     \<lparr>co_id = js ''blackstone -- commentaries v3'',
      co_label = js ''Blackstone '' @ [em_dash] @ js '' Commentaries on the Laws of England, Vol. 3''\<rparr>,
     \<lparr>co_id = js ''blackstone -- commentaries v4'',
      co_label = js ''Blackstone '' @ [em_dash] @ js '' Commentaries on the Laws of England, Vol. 4''\<rparr>,
     \<lparr>co_id = js ''De Lolme -- The Constitution of England'',
      co_label = js ''De Lolme '' @ [em_dash] @ js '' The Constitution of England''\<rparr>,
     \<lparr>co_id = js ''Filmer -- The Anarchy of a Limited or Mixed Monarchy'',
      co_label = js ''Filmer '' @ [em_dash] @ js '' The Anarchy of a Limited or Mixed Monarchy''\<rparr>,
     \<lparr>co_id = js ''Harrington -- The Commonwealth of Oceana'',
      co_label = js ''Harrington '' @ [em_dash] @ js '' The Commonwealth of Oceana''\<rparr>,
     \<lparr>co_id = js ''Hunton -- A Treatise of Monarchy'',
      co_label = js ''Hunton '' @ [em_dash] @ js '' A Treatise of Monarchy''\<rparr>,
     \<lparr>co_id = js ''Locke -- Second Treatise of Government'',
      co_label = js ''Locke '' @ [em_dash] @ js '' Second Treatise of Government''\<rparr>,
     \<lparr>co_id = js ''Montesquieu -- spirit of laws'',
      co_label = js ''Montesquieu '' @ [em_dash] @ js '' The Spirit of Laws''\<rparr>,
     \<lparr>co_id = js ''Rousseau -- The Social Contract'',
      co_label = js ''Rousseau '' @ [em_dash] @ js '' The Social Contract''\<rparr>,
     \<lparr>co_id = js ''Vattel -- The Law of Nations'',
      co_label = js ''Vattel '' @ [em_dash] @ js '' The Law of Nations''\<rparr>]"

definition catalog_ids :: "js_string list" where
  "catalog_ids = map co_id CONTEXT_OPTIONS"

text \<open>
  The props a claim depends on. \<open>onContextChange\<close> is optional in the source
  (\<^verbatim>\<open>onContextChange?: ...\<close>): the field says whether the parent supplied it.
  \<open>onSend\<close> is required and therefore always there.
\<close>

record chat_bar_props =
  onContextChange :: bool

record chat_bar_state =
  "open" :: bool
  selected :: "js_string list"

text \<open>
  \<^verbatim>\<open>useState(false)\<close> and
  \<^verbatim>\<open>useState([CONTEXT_OPTIONS[0].id, CONTEXT_OPTIONS[1].id])\<close>. The catalog is a
  constant of twelve entries, so both indices are in range.
\<close>

definition chat_bar_init :: chat_bar_state where
  "chat_bar_init =
     \<lparr>open = False,
      selected = [co_id (CONTEXT_OPTIONS ! 0), co_id (CONTEXT_OPTIONS ! 1)]\<rparr>"

text \<open>
  \<^verbatim>\<open>setSelected((prev) => (prev.includes(id) ? prev.filter((l) => l !== id) : [...prev, id]))\<close>
\<close>

definition toggleOption :: "js_string \<Rightarrow> chat_bar_state \<Rightarrow> chat_bar_state \<times> effect list" where
  "toggleOption i s =
     (s\<lparr>selected :=
          (if i \<in> set (selected s) then filter (\<lambda>l. l \<noteq> i) (selected s)
           else selected s @ [i])\<rparr>,
      [])"

text \<open>\<^verbatim>\<open>const allSelected = selected.length === CONTEXT_OPTIONS.length\<close>\<close>

definition allSelected :: "chat_bar_state \<Rightarrow> bool" where
  "allSelected s \<longleftrightarrow> length (selected s) = length CONTEXT_OPTIONS"

text \<open>\<^verbatim>\<open>setSelected(allSelected ? [] : CONTEXT_OPTIONS.map((o) => o.id))\<close>\<close>

definition toggleAll :: "chat_bar_state \<Rightarrow> chat_bar_state \<times> effect list" where
  "toggleAll s =
     (s\<lparr>selected := (if allSelected s then [] else map co_id CONTEXT_OPTIONS)\<rparr>, [])"

text \<open>\<^verbatim>\<open>onContextChange?.(selected); setOpen(false)\<close>\<close>

definition confirm :: "chat_bar_props \<Rightarrow> chat_bar_state \<Rightarrow> chat_bar_state \<times> effect list" where
  "confirm p s =
     (s\<lparr>open := False\<rparr>,
      if onContextChange p then [OnContextChange (selected s)] else [])"

text \<open>
  The document-level click listener. \<open>wrapper\<close> says whether \<^verbatim>\<open>wrapperRef.current\<close>
  is set and \<open>inside\<close> whether the wrapper contains the event's target:
  \<^verbatim>\<open>if (open && wrapperRef.current && !wrapperRef.current.contains(e.target)) setOpen(false)\<close>
\<close>

definition handleClick :: "bool \<Rightarrow> bool \<Rightarrow> chat_bar_state \<Rightarrow> chat_bar_state \<times> effect list" where
  "handleClick wrapper inside s =
     (if open s \<and> wrapper \<and> \<not> inside then s\<lparr>open := False\<rparr> else s, [])"

text \<open>The document-level key listener: \<^verbatim>\<open>if (e.key === "Escape") setOpen(false)\<close>\<close>

definition handleKey :: "js_string \<Rightarrow> chat_bar_state \<Rightarrow> chat_bar_state \<times> effect list" where
  "handleKey k s = (if k = js ''Escape'' then s\<lparr>open := False\<rparr> else s, [])"

text \<open>
  The Books button: \<^verbatim>\<open>e.stopPropagation(); setOpen((v) => !v)\<close>. Stopping the
  propagation keeps the click from the document listener.
\<close>

definition books_onClick :: "chat_bar_state \<Rightarrow> chat_bar_state \<times> effect list" where
  "books_onClick s = (s\<lparr>open := \<not> open s\<rparr>, [])"

text \<open>
  The textarea's key handler:
  \<^verbatim>\<open>if (e.key === "Enter" && !e.shiftKey) { e.preventDefault(); onSend(); }\<close>
\<close>

definition onKeyDown :: "js_string \<Rightarrow> bool \<Rightarrow> chat_bar_state \<Rightarrow> chat_bar_state \<times> effect list" where
  "onKeyDown k shiftKey s =
     (s, if k = js ''Enter'' \<and> \<not> shiftKey then [PreventDefault, OnSend] else [])"

text \<open>The events of the context picker, and a run of them from a state.\<close>

datatype picker_event =
    ToggleOption js_string
  | ToggleAll
  | Confirm
  | OutsideClick
  | Escape
  | BooksButton

fun picker_step :: "chat_bar_props \<Rightarrow> picker_event \<Rightarrow> chat_bar_state \<Rightarrow> chat_bar_state \<times> effect list" where
  "picker_step p (ToggleOption i) s = toggleOption i s"
| "picker_step p ToggleAll s = toggleAll s"
| "picker_step p Confirm s = confirm p s"
| "picker_step p OutsideClick s = handleClick True False s"
| "picker_step p Escape s = handleKey (js ''Escape'') s"
| "picker_step p BooksButton s = books_onClick s"

fun picker_run :: "chat_bar_props \<Rightarrow> picker_event list \<Rightarrow> chat_bar_state \<Rightarrow> chat_bar_state \<times> effect list" where
  "picker_run p [] s = (s, [])"
| "picker_run p (e # es) s =
     (case picker_step p e s of
        (s', out) \<Rightarrow> (case picker_run p es s' of (s'', out') \<Rightarrow> (s'', out @ out')))"

text \<open>Whether a toggle event names an id of the catalog (the panel renders no other).\<close>

fun catalog_event :: "picker_event \<Rightarrow> bool" where
  "catalog_event (ToggleOption i) = (i \<in> set catalog_ids)"
| "catalog_event e = True"

text \<open>The selection is a duplicate-free list of catalog ids.\<close>

definition selection_ok :: "js_string list \<Rightarrow> bool" where
  "selection_ok xs \<longleftrightarrow> distinct xs \<and> set xs \<subseteq> set catalog_ids"

section \<open>Onboarding\<close>

text \<open>
  What the handlers read from the browser: \<^verbatim>\<open>new Date().toISOString()\<close> and, when
  \<^verbatim>\<open>navigator\<close> is defined, \<^verbatim>\<open>navigator.userAgent\<close>.
\<close>

record browser =
  now_iso :: js_string
  navigator :: "js_string option"

definition userAgent :: "browser \<Rightarrow> js_string" where
  "userAgent b = (case navigator b of Some ua \<Rightarrow> ua | None \<Rightarrow> js '''')"

record onboarding_state =
  currentStep :: nat
  consentGiven :: bool
  occupation :: js_string
  ageRange :: js_string

definition onboarding_init :: onboarding_state where
  "onboarding_init =
     \<lparr>currentStep = 1, consentGiven = False, occupation = js '''', ageRange = js ''''\<rparr>"

definition handleConsentContinue :: "browser \<Rightarrow> onboarding_state \<Rightarrow> onboarding_state \<times> effect list" where
  "handleConsentContinue b s =
     (if consentGiven s then
        (s\<lparr>currentStep := 2\<rparr>,
         [Fetch (js ''/api/onboarding'')
            (post_json (JObject
               [(''type'', JString (js ''consent'')),
                (''consent'', JString (js ''accepted'')),
                (''ts'', JString (now_iso b)),
                (''userAgent'', JString (userAgent b))]))])
      else (s, []))"

definition handleDemographicContinue :: "browser \<Rightarrow> onboarding_state \<Rightarrow> onboarding_state \<times> effect list" where
  "handleDemographicContinue b s =
     (s,
      [Fetch (js ''/api/onboarding'')
         (post_json (JObject
            [(''type'', JString (js ''demographics'')),
             (''occupation'', JString (occupation s)),
             (''ageRange'', JString (ageRange s)),
             (''ts'', JString (now_iso b)),
             (''userAgent'', JString (userAgent b))])),
       OnComplete])"

text \<open>\<^verbatim>\<open>disabled={!consentGiven}\<close> and \<^verbatim>\<open>disabled={!occupation || !ageRange}\<close>: a string is falsy exactly when it is empty.\<close>

definition consent_disabled :: "onboarding_state \<Rightarrow> bool" where
  "consent_disabled s \<longleftrightarrow> \<not> consentGiven s"

definition demographic_disabled :: "onboarding_state \<Rightarrow> bool" where
  "demographic_disabled s \<longleftrightarrow> occupation s = [] \<or> ageRange s = []"

section \<open>ChatMessage\<close>

datatype role = User | Assistant

record message =
  msg_id :: js_string
  msg_role :: role
  msg_content :: js_string

datatype thumbs = Up | Down

text \<open>
  The optional props of the inline prompt: \<open>None\<close> is \<^verbatim>\<open>undefined\<close>, and
  \<open>onOpenFeedback\<close> says whether the callback was supplied.
\<close>

record chat_message_props =
  isLastAssistantMessage :: "bool option"
  onOpenFeedback :: bool
  showFeedbackPrompt :: "bool option"

record chat_message_state =
  thumbsState :: "thumbs option"
  showPrompt :: bool

text \<open>
  \<^verbatim>\<open>useState(null)\<close> and \<^verbatim>\<open>useState(() => (showFeedbackPrompt ?? false))\<close>.
  The effect \<^verbatim>\<open>if (showFeedbackPrompt) setShowPrompt(true)\<close> depends on the prop alone:
  it runs at mount and when the parent changes the prop, not after a handler of the
  component has changed \<open>showPrompt\<close>.
\<close>

definition chat_message_init :: "chat_message_props \<Rightarrow> chat_message_state" where
  "chat_message_init p =
     \<lparr>thumbsState = None,
      showPrompt = (case showFeedbackPrompt p of Some b \<Rightarrow> b | None \<Rightarrow> False)\<rparr>"

definition handleThumbsUp :: "message \<Rightarrow> chat_message_state \<Rightarrow> chat_message_state \<times> effect list" where
  "handleThumbsUp m s =
     (if thumbsState s = Some Up then
        (s\<lparr>thumbsState := None, showPrompt := False\<rparr>,
         [ToastSuccess ''Feedback removed'',
          Fetch (js ''/api/feedback'')
            (post_json (JObject
               [(''action'', JString (js ''remove'')),
                (''type'', JString (js ''thumbs_up'')),
                (''messageId'', JString (msg_id m))]))])
      else
        (s\<lparr>thumbsState := Some Up, showPrompt := True\<rparr>,
         [ToastSuccess ''Thanks for the positive feedback!'',
          Fetch (js ''/api/feedback'')
            (post_json (JObject
               [(''action'', JString (js ''up'')),
                (''messageId'', JString (msg_id m)),
                (''message'', JString (msg_content m))]))]))"

definition handleThumbsDown :: "message \<Rightarrow> chat_message_state \<Rightarrow> chat_message_state \<times> effect list" where
  "handleThumbsDown m s =
     (if thumbsState s = Some Down then
        (s\<lparr>thumbsState := None, showPrompt := False\<rparr>,
         [ToastSuccess ''Feedback removed'',
          Fetch (js ''/api/feedback'')
            (post_json (JObject
               [(''action'', JString (js ''remove'')),
                (''type'', JString (js ''thumbs_down'')),
                (''messageId'', JString (msg_id m))]))])
      else
        (s\<lparr>thumbsState := Some Down, showPrompt := True\<rparr>,
         [ToastSuccess ''Thanks for your feedback'',
          Fetch (js ''/api/feedback'')
            (post_json (JObject
               [(''action'', JString (js ''down'')),
                (''messageId'', JString (msg_id m)),
                (''message'', JString (msg_content m))]))]))"

text \<open>The button of a direction runs that direction's handler.\<close>

fun handleThumbs :: "thumbs \<Rightarrow> message \<Rightarrow> chat_message_state \<Rightarrow> chat_message_state \<times> effect list" where
  "handleThumbs Up m s = handleThumbsUp m s"
| "handleThumbs Down m s = handleThumbsDown m s"

fun opposite :: "thumbs \<Rightarrow> thumbs" where
  "opposite Up = Down"
| "opposite Down = Up"

fun action_name :: "thumbs \<Rightarrow> js_string" where
  "action_name Up = js ''up''"
| "action_name Down = js ''down''"

text \<open>
  Whether the inline prompt is rendered. A user message returns before the prompt, and
  for an assistant message the condition is
  \<^verbatim>\<open>isLastAssistantMessage && onOpenFeedback && (showFeedbackPrompt ?? true) && showPrompt\<close>
\<close>

definition prompt_rendered :: "chat_message_props \<Rightarrow> message \<Rightarrow> chat_message_state \<Rightarrow> bool" where
  "prompt_rendered p m s \<longleftrightarrow>
     msg_role m = Assistant
     \<and> isLastAssistantMessage p = Some True
     \<and> onOpenFeedback p
     \<and> (case showFeedbackPrompt p of Some b \<Rightarrow> b | None \<Rightarrow> True)
     \<and> showPrompt s"

section \<open>FeedbackModal\<close>

text \<open>\<open>conversation\<close> is optional: \<^verbatim>\<open>conversation || []\<close> is sent.\<close>

record feedback_modal_props =
  conversation :: "(js_string \<times> js_string) list option"

record feedback_modal_state =
  helpfulnessRating :: nat
  hoveredHelpfulStar :: nat
  citationRating :: nat
  hoveredCitationStar :: nat
  feedbackText :: js_string

definition feedback_modal_init :: feedback_modal_state where
  "feedback_modal_init =
     \<lparr>helpfulnessRating = 0, hoveredHelpfulStar = 0, citationRating = 0,
      hoveredCitationStar = 0, feedbackText = js ''''\<rparr>"

definition handleClose :: "feedback_modal_state \<Rightarrow> feedback_modal_state \<times> effect list" where
  "handleClose s =
     (s\<lparr>helpfulnessRating := 0, hoveredHelpfulStar := 0, citationRating := 0,
        hoveredCitationStar := 0, feedbackText := js ''''\<rparr>,
      [OnClose])"

definition conversation_json :: "feedback_modal_props \<Rightarrow> json" where
  "conversation_json p =
     JArray (map (\<lambda>(r, c). JObject [(''role'', JString r), (''content'', JString c)])
               (case conversation p of Some cs \<Rightarrow> cs | None \<Rightarrow> []))"

text \<open>
  \<^verbatim>\<open>if (helpfulnessRating === 0 && citationRating === 0 && !feedbackText.trim()) { toast.error(...); return; }\<close>
  and then the request, the success toast and \<^verbatim>\<open>handleClose()\<close>.
\<close>

definition handleSubmit :: "feedback_modal_props \<Rightarrow> feedback_modal_state \<Rightarrow> feedback_modal_state \<times> effect list" where
  "handleSubmit p s =
     (if helpfulnessRating s = 0 \<and> citationRating s = 0 \<and> trim (feedbackText s) = [] then
        (s, [ToastError ''Please provide at least one rating or feedback''])
      else
        (case handleClose s of
           (s', out) \<Rightarrow>
             (s',
              [Fetch (js ''/api/feedback'')
                 (post_json (JObject
                    [(''type'', JString (js ''extended'')),
                     (''helpfulnessRating'', JNumber (helpfulnessRating s)),
                     (''citationRating'', JNumber (citationRating s)),
                     (''feedbackText'', JString (feedbackText s)),
                     (''conversation'', conversation_json p)])),
               ToastSuccess ''Thank you for your feedback!''] @ out)))"

text \<open>
  The submit button:
  \<^verbatim>\<open>disabled={helpfulnessRating === 0 && citationRating === 0 && !feedbackText.trim()}\<close>
\<close>

definition submit_disabled :: "feedback_modal_state \<Rightarrow> bool" where
  "submit_disabled s \<longleftrightarrow>
     helpfulnessRating s = 0 \<and> citationRating s = 0 \<and> trim (feedbackText s) = []"

section \<open>Vocabulary of the statements\<close>

text \<open>The two toggle events of the picker.\<close>

fun is_toggle :: "picker_event \<Rightarrow> bool" where
  "is_toggle (ToggleOption i) = True"
| "is_toggle ToggleAll = True"
| "is_toggle e = False"

text \<open>
  The \<^verbatim>\<open>type\<close> field that the removal request of each thumbs handler carries:
  \<^verbatim>\<open>"thumbs_up"\<close> in \<^verbatim>\<open>handleThumbsUp\<close>, \<^verbatim>\<open>"thumbs_down"\<close> in
  \<^verbatim>\<open>handleThumbsDown\<close>.
\<close>

fun type_name :: "thumbs \<Rightarrow> js_string" where
  "type_name Up = js ''thumbs_up''"
| "type_name Down = js ''thumbs_down''"

text \<open>A message and props on which the inline prompt can be rendered.\<close>

definition sample_message :: message where
  "sample_message = \<lparr>msg_id = js ''m1'', msg_role = Assistant, msg_content = js ''Hello''\<rparr>"

definition sample_props :: chat_message_props where
  "sample_props =
     \<lparr>isLastAssistantMessage = Some True, onOpenFeedback = True, showFeedbackPrompt = None\<rparr>"

section \<open>Facts about the catalog\<close>

lemma catalog_ids_unfold:
  "catalog_ids =
     [js ''blackstone -- commentaries v1'', js ''blackstone -- commentaries v2'',
      js ''blackstone -- commentaries v3'', js ''blackstone -- commentaries v4'',
      js ''De Lolme -- The Constitution of England'',
      js ''Filmer -- The Anarchy of a Limited or Mixed Monarchy'',
      js ''Harrington -- The Commonwealth of Oceana'',
      js ''Hunton -- A Treatise of Monarchy'',
      js ''Locke -- Second Treatise of Government'',
      js ''Montesquieu -- spirit of laws'',
      js ''Rousseau -- The Social Contract'',
      js ''Vattel -- The Law of Nations'']"
  by (simp add: catalog_ids_def CONTEXT_OPTIONS_def)

lemma length_CONTEXT_OPTIONS: "length CONTEXT_OPTIONS = 12"
  by (simp add: CONTEXT_OPTIONS_def)

lemma length_catalog_ids: "length catalog_ids = 12"
  by (simp add: catalog_ids_def length_CONTEXT_OPTIONS)

lemma distinct_catalog_ids: "distinct catalog_ids"
  by (simp add: catalog_ids_unfold js_def)

lemma card_catalog_ids: "card (set catalog_ids) = 12"
  using distinct_catalog_ids length_catalog_ids by (simp add: distinct_card)

lemma selection_ok_full:
  assumes "selection_ok xs" and "length xs = 12"
  shows "set xs = set catalog_ids"
proof -
  from assms have "card (set xs) = card (set catalog_ids)"
    by (simp add: selection_ok_def distinct_card card_catalog_ids)
  moreover from assms have "set xs \<subseteq> set catalog_ids"
    by (simp add: selection_ok_def)
  ultimately show ?thesis
    by (simp add: card_subset_eq)
qed

lemma selection_ok_init: "selection_ok (selected chat_bar_init)"
  by (simp add: selection_ok_def chat_bar_init_def catalog_ids_def CONTEXT_OPTIONS_def js_def)

section \<open>Runs of picker events\<close>

lemma fst_picker_run_Cons:
  "fst (picker_run p (e # es) s) = fst (picker_run p es (fst (picker_step p e s)))"
  by (auto split: prod.splits)

lemma snd_picker_run_Cons:
  "snd (picker_run p (e # es) s) =
     snd (picker_step p e s) @ snd (picker_run p es (fst (picker_step p e s)))"
  by (auto split: prod.splits)

section \<open>The selection of the context picker\<close>

text \<open>
  C7. Toggling one id twice in succession gives back the same set of selected ids, from
  every selection (reachable or not) and for every id; the panel stays as it was and
  nothing is reported to the parent. The list itself may change: an id that was selected
  is removed and then appended, so it moves to the end.
\<close>

theorem toggleOption_involution:
  "set (selected (fst (toggleOption i (fst (toggleOption i s))))) = set (selected s)
   \<and> open (fst (toggleOption i (fst (toggleOption i s)))) = open s
   \<and> snd (toggleOption i s) = []
   \<and> snd (toggleOption i (fst (toggleOption i s))) = []"
  by (auto simp: toggleOption_def)

text \<open>
  C1, as stated, fails. With the panel open and the initial selection (two of the twelve
  ids) the first toggle-all selects the whole catalog and the second clears it: the
  selection ends empty, not at the two ids it started from.
\<close>

theorem toggleAll_twice_counterexample:
  "selected (fst (toggleAll (chat_bar_init\<lparr>open := True\<rparr>))) = catalog_ids
   \<and> selected (fst (toggleAll (fst (toggleAll (chat_bar_init\<lparr>open := True\<rparr>))))) = []
   \<and> selected (fst (toggleAll (fst (toggleAll (chat_bar_init\<lparr>open := True\<rparr>)))))
       \<noteq> selected (chat_bar_init\<lparr>open := True\<rparr>)"
  by (simp add: toggleAll_def allSelected_def chat_bar_init_def catalog_ids_def
      length_CONTEXT_OPTIONS)

text \<open>
  C1, amended. For every duplicate-free selection of catalog ids: the test of toggle-all
  (the selection is as long as the catalog) holds exactly when every catalog id is
  selected; one toggle-all clears the selection to empty in that case and selects the
  whole catalog otherwise, leaving the panel as it is and reporting nothing; toggle-all
  twice in succession leaves the whole catalog selected when every catalog id was selected
  before the first invocation, and leaves the selection empty otherwise. So two
  invocations give back the set of selected ids exactly when that set was the whole
  catalog or empty.
\<close>

theorem toggleAll_twice:
  assumes "selection_ok (selected s)"
  shows "(allSelected s \<longleftrightarrow> set (selected s) = set catalog_ids)
    \<and> selected (fst (toggleAll s)) = (if allSelected s then [] else catalog_ids)
    \<and> open (fst (toggleAll s)) = open s
    \<and> snd (toggleAll s) = []
    \<and> selected (fst (toggleAll (fst (toggleAll s)))) =
        (if allSelected s then catalog_ids else [])
    \<and> (set (selected (fst (toggleAll (fst (toggleAll s))))) = set (selected s)
         \<longleftrightarrow> selected s = [] \<or> allSelected s)"
proof -
  have full: "allSelected s \<longleftrightarrow> set (selected s) = set catalog_ids"
  proof
    assume "allSelected s"
    then have "length (selected s) = 12"
      by (simp add: allSelected_def length_CONTEXT_OPTIONS)
    with assms show "set (selected s) = set catalog_ids"
      by (rule selection_ok_full)
  next
    assume "set (selected s) = set catalog_ids"
    then have "card (set (selected s)) = 12"
      by (simp add: card_catalog_ids)
    moreover from assms have "distinct (selected s)"
      by (simp add: selection_ok_def)
    ultimately have "length (selected s) = 12"
      by (simp add: distinct_card)
    then show "allSelected s"
      by (simp add: allSelected_def length_CONTEXT_OPTIONS)
  qed
  have once: "selected (fst (toggleAll s)) = (if allSelected s then [] else catalog_ids)"
    by (simp add: toggleAll_def catalog_ids_def)
  have frame: "open (fst (toggleAll s)) = open s \<and> snd (toggleAll s) = []"
    by (simp add: toggleAll_def)
  have twice: "selected (fst (toggleAll (fst (toggleAll s)))) =
      (if allSelected s then catalog_ids else [])"
    by (simp add: toggleAll_def allSelected_def catalog_ids_def length_CONTEXT_OPTIONS)
  have restored: "set (selected (fst (toggleAll (fst (toggleAll s))))) = set (selected s)
      \<longleftrightarrow> selected s = [] \<or> allSelected s"
  proof (cases "allSelected s")
    case True
    with full twice show ?thesis
      by simp
  next
    case False
    with twice show ?thesis
      by auto
  qed
  from full once frame twice restored show ?thesis
    by blast
qed

theorem toggleAll_twice_witness:
  "selection_ok (selected (chat_bar_init\<lparr>open := True\<rparr>))
   \<and> \<not> allSelected (chat_bar_init\<lparr>open := True\<rparr>)
   \<and> fst (toggleAll (chat_bar_init\<lparr>open := True\<rparr>)) =
       \<lparr>open = True, selected = catalog_ids\<rparr>
   \<and> selected (fst (toggleAll (fst (toggleAll (chat_bar_init\<lparr>open := True\<rparr>))))) = []
   \<and> set (selected (fst (toggleAll (fst (toggleAll (chat_bar_init\<lparr>open := True\<rparr>))))))
       \<noteq> set (selected (chat_bar_init\<lparr>open := True\<rparr>))
   \<and> selection_ok (selected \<lparr>open = True, selected = catalog_ids\<rparr>)
   \<and> allSelected \<lparr>open = True, selected = catalog_ids\<rparr>
   \<and> selected (fst (toggleAll \<lparr>open = True, selected = catalog_ids\<rparr>)) = []
   \<and> selected (fst (toggleAll (fst (toggleAll \<lparr>open = True, selected = catalog_ids\<rparr>)))) =
       catalog_ids"
proof -
  have ok: "selection_ok (selected (chat_bar_init\<lparr>open := True\<rparr>))"
    using selection_ok_init by simp
  have ok': "selection_ok (selected \<lparr>open = True, selected = catalog_ids\<rparr>)"
    using distinct_catalog_ids by (simp add: selection_ok_def)
  have not_all: "\<not> allSelected (chat_bar_init\<lparr>open := True\<rparr>)"
    and all: "allSelected \<lparr>open = True, selected = catalog_ids\<rparr>"
    and ne: "selected (chat_bar_init\<lparr>open := True\<rparr>) \<noteq> []"
    by (simp_all add: allSelected_def chat_bar_init_def length_CONTEXT_OPTIONS
        length_catalog_ids)
  have whole: "fst (toggleAll (chat_bar_init\<lparr>open := True\<rparr>)) =
      \<lparr>open = True, selected = catalog_ids\<rparr>"
    using not_all by (simp add: toggleAll_def catalog_ids_def chat_bar_init_def)
  from ok ok' not_all all ne whole toggleAll_twice [OF ok] toggleAll_twice [OF ok']
  show ?thesis
    by simp
qed

lemma toggleOption_ok:
  "selection_ok (selected s) \<Longrightarrow> i \<in> set catalog_ids
     \<Longrightarrow> selection_ok (selected (fst (toggleOption i s)))"
  by (auto simp: selection_ok_def toggleOption_def)

lemma toggleAll_ok: "selection_ok (selected (fst (toggleAll s)))"
  using distinct_catalog_ids by (simp add: selection_ok_def toggleAll_def catalog_ids_def)

lemma picker_step_ok:
  "selection_ok (selected s) \<Longrightarrow> catalog_event e
     \<Longrightarrow> selection_ok (selected (fst (picker_step p e s)))"
  by (cases e)
    (simp_all add: toggleOption_ok toggleAll_ok confirm_def handleClick_def handleKey_def
      books_onClick_def)

lemma picker_run_ok:
  "selection_ok (selected s) \<Longrightarrow> list_all catalog_event es
     \<Longrightarrow> selection_ok (selected (fst (picker_run p es s)))"
proof (induction es arbitrary: s)
  case Nil
  then show ?case by simp
next
  case (Cons e es)
  from Cons.prems have "selection_ok (selected (fst (picker_step p e s)))"
    by (simp add: picker_step_ok)
  moreover from Cons.prems have "list_all catalog_event es"
    by simp
  ultimately have "selection_ok (selected (fst (picker_run p es (fst (picker_step p e s)))))"
    by (rule Cons.IH)
  then show ?case
    by (simp only: fst_picker_run_Cons)
qed

text \<open>
  C8. The selection starts as the first two catalog ids, and after every sequence of
  picker events whose toggles name catalog ids (toggle-one, toggle-all, confirm, and also
  outside click, Escape and the Books button) it is a duplicate-free list of ids of the
  twelve-entry catalog.
\<close>

theorem selection_invariant:
  assumes "list_all catalog_event es"
  shows "selected chat_bar_init = take 2 catalog_ids
    \<and> length catalog_ids = 12
    \<and> selection_ok (selected (fst (picker_run p es chat_bar_init)))"
proof (intro conjI)
  show "selected chat_bar_init = take 2 catalog_ids"
    by (simp add: chat_bar_init_def catalog_ids_def CONTEXT_OPTIONS_def)
  show "length catalog_ids = 12"
    by (rule length_catalog_ids)
  show "selection_ok (selected (fst (picker_run p es chat_bar_init)))"
    using selection_ok_init assms by (rule picker_run_ok)
qed

lemma sample_events_in_catalog:
  "list_all catalog_event
     [ToggleOption (js ''Locke -- Second Treatise of Government''), ToggleAll, Confirm,
      ToggleOption (js ''blackstone -- commentaries v1'')]"
  by (simp add: catalog_ids_unfold)

theorem selection_invariant_witness:
  "list_all catalog_event
     [ToggleOption (js ''Locke -- Second Treatise of Government''), ToggleAll, Confirm,
      ToggleOption (js ''blackstone -- commentaries v1'')]
   \<and> selection_ok (selected (fst (picker_run \<lparr>onContextChange = True\<rparr>
        [ToggleOption (js ''Locke -- Second Treatise of Government''), ToggleAll, Confirm,
         ToggleOption (js ''blackstone -- commentaries v1'')] chat_bar_init)))"
  using sample_events_in_catalog selection_invariant [OF sample_events_in_catalog] by simp

section \<open>Propagation of the selection\<close>

lemma picker_step_calls:
  "length (filter is_onContextChange (snd (picker_step p e s))) =
     (if onContextChange p \<and> e = Confirm then 1 else 0)"
  by (cases e)
    (simp_all add: toggleOption_def toggleAll_def confirm_def handleClick_def handleKey_def
      books_onClick_def)

lemma picker_run_calls:
  "length (filter is_onContextChange (snd (picker_run p es s))) =
     (if onContextChange p then count_list es Confirm else 0)"
proof (induction es arbitrary: s)
  case Nil
  show ?case by simp
next
  case (Cons e es)
  show ?case
    by (simp only: snd_picker_run_Cons filter_append length_append Cons.IH picker_step_calls)
      simp
qed

lemma toggles_no_confirm: "list_all is_toggle es \<Longrightarrow> count_list es Confirm = 0"
  by (induction es) auto

lemma confirm_without_callback:
  "\<not> onContextChange p \<Longrightarrow> confirm p s = (s\<lparr>open := False\<rparr>, [])"
  by (simp add: confirm_def)

text \<open>
  C5. With the callback supplied by the parent (the prop is optional in the source, and
  \<^verbatim>\<open>onContextChange?.(selected)\<close> calls nothing when it is absent), Confirm calls
  \<open>onContextChange\<close> exactly once, with the current selection. Confirm closes the panel
  and leaves the selection as it is. Over any run of picker events the number of calls of
  \<open>onContextChange\<close> is the number of Confirm events in it, so a run of toggle-one and
  toggle-all events, however long, never calls it.
\<close>

theorem confirm_propagates:
  "(onContextChange p \<longrightarrow> snd (confirm p s) = [OnContextChange (selected s)])
   \<and> open (fst (confirm p s)) = False
   \<and> selected (fst (confirm p s)) = selected s
   \<and> length (filter is_onContextChange (snd (picker_run p es s))) =
       (if onContextChange p then count_list es Confirm else 0)
   \<and> (list_all is_toggle es \<longrightarrow> filter is_onContextChange (snd (picker_run p es s)) = [])"
proof (intro conjI impI)
  show "snd (confirm p s) = [OnContextChange (selected s)]" if "onContextChange p"
    using that by (simp add: confirm_def)
  show "open (fst (confirm p s)) = False"
    by (simp add: confirm_def)
  show "selected (fst (confirm p s)) = selected s"
    by (simp add: confirm_def)
  show "length (filter is_onContextChange (snd (picker_run p es s))) =
      (if onContextChange p then count_list es Confirm else 0)"
    by (rule picker_run_calls)
  show "filter is_onContextChange (snd (picker_run p es s)) = []" if "list_all is_toggle es"
  proof -
    from that have none: "count_list es Confirm = 0"
      by (rule toggles_no_confirm)
    have "length (filter is_onContextChange (snd (picker_run p es s))) = 0"
      by (simp add: picker_run_calls none)
    then show ?thesis
      by simp
  qed
qed

theorem confirm_propagates_witness:
  "onContextChange \<lparr>onContextChange = True\<rparr>
   \<and> confirm \<lparr>onContextChange = True\<rparr> (chat_bar_init\<lparr>open := True\<rparr>) =
       (chat_bar_init, [OnContextChange (take 2 catalog_ids)])
   \<and> list_all is_toggle [ToggleAll, ToggleOption (js ''Vattel -- The Law of Nations''), ToggleAll]
   \<and> filter is_onContextChange
        (snd (picker_run \<lparr>onContextChange = True\<rparr>
           [ToggleAll, ToggleOption (js ''Vattel -- The Law of Nations''), ToggleAll]
           (chat_bar_init\<lparr>open := True\<rparr>))) = []
   \<and> length (filter is_onContextChange
        (snd (picker_run \<lparr>onContextChange = True\<rparr>
           [ToggleAll, Confirm, ToggleAll, BooksButton, Confirm]
           (chat_bar_init\<lparr>open := True\<rparr>)))) = 2"
  using confirm_propagates
      [of "\<lparr>onContextChange = True\<rparr>" "chat_bar_init\<lparr>open := True\<rparr>"
        "[ToggleAll, ToggleOption (js ''Vattel -- The Law of Nations''), ToggleAll]"]
    confirm_propagates
      [of "\<lparr>onContextChange = True\<rparr>" "chat_bar_init\<lparr>open := True\<rparr>"
        "[ToggleAll, Confirm, ToggleAll, BooksButton, Confirm]"]
  by (simp add: confirm_def chat_bar_init_def catalog_ids_def CONTEXT_OPTIONS_def)

text \<open>
  C6. A click outside the wrapper and the Escape key each close the panel, call nothing
  (so not \<open>onContextChange\<close>) and leave \<open>selected\<close> as it is; opening the panel again
  with the Books button gives the state before the close, with the panel open: the same
  unconfirmed selection is shown.
\<close>

theorem close_without_confirm:
  "open (fst (handleClick True False s)) = False
   \<and> selected (fst (handleClick True False s)) = selected s
   \<and> snd (handleClick True False s) = []
   \<and> open (fst (handleKey (js ''Escape'') s)) = False
   \<and> selected (fst (handleKey (js ''Escape'') s)) = selected s
   \<and> snd (handleKey (js ''Escape'') s) = []
   \<and> fst (books_onClick (fst (handleClick True False s))) = s\<lparr>open := True\<rparr>
   \<and> fst (books_onClick (fst (handleKey (js ''Escape'') s))) = s\<lparr>open := True\<rparr>
   \<and> snd (books_onClick s) = []"
  by (simp add: handleClick_def handleKey_def books_onClick_def)

section \<open>The composer's key handler\<close>

text \<open>
  C9. Enter without Shift prevents the default action of the key (the newline) and calls
  \<open>onSend\<close> exactly once; Enter with Shift calls nothing: no send, and the default
  action is not prevented. The component's state is untouched in both cases.
\<close>

theorem enter_sends_once:
  "onKeyDown (js ''Enter'') False s = (s, [PreventDefault, OnSend])
   \<and> count_list (snd (onKeyDown (js ''Enter'') False s)) OnSend = 1
   \<and> onKeyDown (js ''Enter'') True s = (s, [])
   \<and> count_list (snd (onKeyDown (js ''Enter'') True s)) OnSend = 0
   \<and> PreventDefault \<notin> set (snd (onKeyDown (js ''Enter'') True s))"
  by (simp add: onKeyDown_def)

section \<open>Onboarding\<close>

text \<open>
  C10. For every occupation and age range, empty or not, the demographics handler issues
  one request, of type \<open>demographics\<close> and carrying both fields, and then calls
  \<open>onComplete\<close> once; it checks nothing. Only the button is gated: it is disabled exactly
  when one of the two strings is empty. The consent handler, in contrast, does nothing
  when consent is not given.
\<close>

theorem demographic_continue_unguarded:
  "snd (handleDemographicContinue b s) =
     [Fetch (js ''/api/onboarding'')
        (post_json (JObject
           [(''type'', JString (js ''demographics'')),
            (''occupation'', JString (occupation s)),
            (''ageRange'', JString (ageRange s)),
            (''ts'', JString (now_iso b)),
            (''userAgent'', JString (userAgent b))])),
      OnComplete]
   \<and> length (filter is_fetch (snd (handleDemographicContinue b s))) = 1
   \<and> map (body_field ''type'') (filter is_fetch (snd (handleDemographicContinue b s))) =
       [Some (JString (js ''demographics''))]
   \<and> count_list (snd (handleDemographicContinue b s)) OnComplete = 1
   \<and> fst (handleDemographicContinue b s) = s
   \<and> (demographic_disabled s \<longleftrightarrow> occupation s = [] \<or> ageRange s = [])
   \<and> (\<not> consentGiven s \<longrightarrow> handleConsentContinue b s = (s, []))"
  by (simp add: handleDemographicContinue_def handleConsentContinue_def post_json_def
      demographic_disabled_def)

theorem demographic_continue_unguarded_witness:
  "demographic_disabled (onboarding_init\<lparr>currentStep := 2, consentGiven := True\<rparr>)
   \<and> count_list
        (snd (handleDemographicContinue
           \<lparr>now_iso = js ''2026-01-01T00:00:00.000Z'', navigator = None\<rparr>
           (onboarding_init\<lparr>currentStep := 2, consentGiven := True\<rparr>))) OnComplete = 1
   \<and> map (body_field ''occupation'')
        (filter is_fetch
           (snd (handleDemographicContinue
              \<lparr>now_iso = js ''2026-01-01T00:00:00.000Z'', navigator = None\<rparr>
              (onboarding_init\<lparr>currentStep := 2, consentGiven := True\<rparr>)))) =
       [Some (JString [])]
   \<and> \<not> consentGiven onboarding_init
   \<and> handleConsentContinue
        \<lparr>now_iso = js ''2026-01-01T00:00:00.000Z'', navigator = None\<rparr> onboarding_init =
       (onboarding_init, [])"
  using demographic_continue_unguarded
      [of "\<lparr>now_iso = js ''2026-01-01T00:00:00.000Z'', navigator = None\<rparr>"
        "onboarding_init\<lparr>currentStep := 2, consentGiven := True\<rparr>"]
    demographic_continue_unguarded
      [of "\<lparr>now_iso = js ''2026-01-01T00:00:00.000Z'', navigator = None\<rparr>" onboarding_init]
  by (simp add: onboarding_init_def post_json_def js_def)

section \<open>Thumbs feedback on a message\<close>

lemma action_name_not_remove: "action_name d \<noteq> js ''remove''"
  by (cases d) (simp_all add: js_def)

text \<open>
  C3. For every message and direction \<open>d\<close>: when \<open>d\<close> is the active thumb, its action
  sets \<open>thumbsState\<close> to null, hides the inline prompt, and issues exactly one request,
  with action \<open>remove\<close> and the message id. And when \<open>d\<close> is not the active thumb,
  selecting it makes it active and selecting it again ends at \<open>thumbsState\<close> null with
  the prompt hidden: the round trip.
\<close>

theorem thumbs_round_trip:
  "(thumbsState s = Some d \<longrightarrow>
      thumbsState (fst (handleThumbs d m s)) = None
      \<and> showPrompt (fst (handleThumbs d m s)) = False
      \<and> \<not> prompt_rendered p m (fst (handleThumbs d m s))
      \<and> filter is_fetch (snd (handleThumbs d m s)) =
          [Fetch (js ''/api/feedback'')
             (post_json (JObject
                [(''action'', JString (js ''remove'')),
                 (''type'', JString (type_name d)),
                 (''messageId'', JString (msg_id m))]))]
      \<and> map (body_field ''action'') (filter is_fetch (snd (handleThumbs d m s))) =
          [Some (JString (js ''remove''))]
      \<and> map (body_field ''messageId'') (filter is_fetch (snd (handleThumbs d m s))) =
          [Some (JString (msg_id m))])
   \<and> (thumbsState s \<noteq> Some d \<longrightarrow>
      thumbsState (fst (handleThumbs d m s)) = Some d
      \<and> thumbsState (fst (handleThumbs d m (fst (handleThumbs d m s)))) = None
      \<and> showPrompt (fst (handleThumbs d m (fst (handleThumbs d m s)))) = False
      \<and> \<not> prompt_rendered p m (fst (handleThumbs d m (fst (handleThumbs d m s)))))"
  by (cases d)
    (simp_all add: handleThumbsUp_def handleThumbsDown_def prompt_rendered_def post_json_def)

theorem thumbs_round_trip_witness:
  "thumbsState \<lparr>thumbsState = Some Down, showPrompt = True\<rparr> = Some Down
   \<and> prompt_rendered sample_props sample_message \<lparr>thumbsState = Some Down, showPrompt = True\<rparr>
   \<and> fst (handleThumbs Down sample_message \<lparr>thumbsState = Some Down, showPrompt = True\<rparr>) =
       \<lparr>thumbsState = None, showPrompt = False\<rparr>
   \<and> map (body_field ''action'')
        (filter is_fetch
           (snd (handleThumbs Down sample_message
              \<lparr>thumbsState = Some Down, showPrompt = True\<rparr>))) =
       [Some (JString (js ''remove''))]
   \<and> thumbsState (chat_message_init sample_props) \<noteq> Some Up
   \<and> thumbsState
        (fst (handleThumbs Up sample_message
           (fst (handleThumbs Up sample_message (chat_message_init sample_props))))) = None"
  using thumbs_round_trip
      [of "\<lparr>thumbsState = Some Down, showPrompt = True\<rparr>" Down sample_message sample_props]
    thumbs_round_trip [of "chat_message_init sample_props" Up sample_message sample_props]
  by (simp add: sample_props_def sample_message_def chat_message_init_def prompt_rendered_def
      handleThumbsDown_def)

text \<open>
  C4. For every message and direction \<open>d\<close>: when the opposite thumb is active, the
  action of \<open>d\<close> overwrites \<open>thumbsState\<close> with \<open>d\<close> and issues exactly one request, the
  fresh \<open>up\<close> or \<open>down\<close> one with the message id and content; no request with action
  \<open>remove\<close> is issued for the thumb that was active.
\<close>

theorem thumbs_switch:
  assumes "thumbsState s = Some (opposite d)"
  shows "thumbsState (fst (handleThumbs d m s)) = Some d
    \<and> filter is_fetch (snd (handleThumbs d m s)) =
        [Fetch (js ''/api/feedback'')
           (post_json (JObject
              [(''action'', JString (action_name d)),
               (''messageId'', JString (msg_id m)),
               (''message'', JString (msg_content m))]))]
    \<and> map (body_field ''action'') (filter is_fetch (snd (handleThumbs d m s))) =
        [Some (JString (action_name d))]
    \<and> Some (JString (js ''remove''))
        \<notin> set (map (body_field ''action'') (snd (handleThumbs d m s)))"
  using assms
  by (cases d)
    (simp_all add: handleThumbsUp_def handleThumbsDown_def post_json_def js_def)

theorem thumbs_switch_witness:
  "thumbsState \<lparr>thumbsState = Some Up, showPrompt = True\<rparr> = Some (opposite Down)
   \<and> thumbsState
        (fst (handleThumbs Down sample_message \<lparr>thumbsState = Some Up, showPrompt = True\<rparr>)) =
       Some Down
   \<and> map (body_field ''action'')
        (filter is_fetch
           (snd (handleThumbs Down sample_message
              \<lparr>thumbsState = Some Up, showPrompt = True\<rparr>))) =
       [Some (JString (js ''down''))]"
proof -
  have h: "thumbsState \<lparr>thumbsState = Some Up, showPrompt = True\<rparr> = Some (opposite Down)"
    by simp
  from h thumbs_switch [OF h, of sample_message] show ?thesis
    by (simp add: post_json_def)
qed

section \<open>The gate of the feedback modal\<close>

text \<open>The trimmed text is empty exactly when the text is white space throughout.\<close>

lemma trim_empty_iff: "trim s = [] \<longleftrightarrow> list_all isWhiteSpace s"
proof
  assume "trim s = []"
  then have all: "\<forall>c \<in> set (dropWhile isWhiteSpace s). isWhiteSpace c"
    by (simp add: trim_def)
  have "dropWhile isWhiteSpace s = []"
  proof (rule ccontr)
    assume ne: "dropWhile isWhiteSpace s \<noteq> []"
    then have "\<not> isWhiteSpace (hd (dropWhile isWhiteSpace s))"
      by (rule hd_dropWhile)
    moreover from ne have "hd (dropWhile isWhiteSpace s) \<in> set (dropWhile isWhiteSpace s)"
      by (rule hd_in_set)
    ultimately show False
      using all by blast
  qed
  then show "list_all isWhiteSpace s"
    by (simp add: list_all_iff)
next
  assume "list_all isWhiteSpace s"
  then have "dropWhile isWhiteSpace s = []"
    by (simp add: list_all_iff)
  then show "trim s = []"
    by (simp only: trim_def rev.simps dropWhile.simps)
qed

lemma handleSubmit_valid:
  "\<not> submit_disabled s \<Longrightarrow>
     fst (handleSubmit p s) = feedback_modal_init
     \<and> length (filter is_fetch (snd (handleSubmit p s))) = 1
     \<and> OnClose \<in> set (snd (handleSubmit p s))"
  by (simp add: submit_disabled_def handleSubmit_def handleClose_def feedback_modal_init_def)

text \<open>
  C2. The submit button is disabled exactly when both ratings are 0 and the trimmed text
  is empty. If submit runs in such a state all the same, it shows the error notification
  and nothing else: no request is issued, the ratings, hover states and text stay as they
  are, and \<open>onClose\<close> is not called.
\<close>

theorem submit_gate:
  "(submit_disabled s \<longleftrightarrow>
      helpfulnessRating s = 0 \<and> citationRating s = 0 \<and> trim (feedbackText s) = [])
   \<and> (submit_disabled s \<longrightarrow>
        handleSubmit p s = (s, [ToastError ''Please provide at least one rating or feedback''])
        \<and> list_ex is_toast_error (snd (handleSubmit p s))
        \<and> filter is_fetch (snd (handleSubmit p s)) = []
        \<and> OnClose \<notin> set (snd (handleSubmit p s))
        \<and> fst (handleSubmit p s) = s)"
  by (simp add: submit_disabled_def handleSubmit_def)

theorem submit_gate_witness:
  "submit_disabled
     (feedback_modal_init
        \<lparr>hoveredHelpfulStar := 3, feedbackText := js '' '' @ [0x0009, 0x000A, 0x00A0]\<rparr>)
   \<and> handleSubmit \<lparr>conversation = None\<rparr>
       (feedback_modal_init
          \<lparr>hoveredHelpfulStar := 3, feedbackText := js '' '' @ [0x0009, 0x000A, 0x00A0]\<rparr>) =
      (feedback_modal_init
         \<lparr>hoveredHelpfulStar := 3, feedbackText := js '' '' @ [0x0009, 0x000A, 0x00A0]\<rparr>,
       [ToastError ''Please provide at least one rating or feedback''])"
proof -
  have d: "submit_disabled
      (feedback_modal_init
         \<lparr>hoveredHelpfulStar := 3, feedbackText := js '' '' @ [0x0009, 0x000A, 0x00A0]\<rparr>)"
    by (simp add: submit_disabled_def feedback_modal_init_def trim_def isWhiteSpace_def js_def)
  with submit_gate
      [of "feedback_modal_init
             \<lparr>hoveredHelpfulStar := 3, feedbackText := js '' '' @ [0x0009, 0x000A, 0x00A0]\<rparr>"
        "\<lparr>conversation = None\<rparr>"]
  show ?thesis
    by simp
qed

end
